theory Spec2Isabelle
  imports Complex_Main "HOL-Library.Sublist"
begin

section \<open>JavaScript values used by the activity recorder and the rate limiters\<close>

text \<open>
  A JavaScript \<open>number\<close>. The finite values are taken as rationals: the code only
  negates, compares and truncates them, so no rounding is involved. \<open>-0\<close> and \<open>+0\<close> are
  the one value \<open>Finite 0\<close> (both are falsy, and both are index 0).
\<close>

datatype number = NaN | Finite rat | PosInfinity | NegInfinity

text \<open>Unary minus.\<close>

fun negate :: "number \<Rightarrow> number" where
  "negate NaN = NaN"
| "negate (Finite q) = Finite (- q)"
| "negate PosInfinity = NegInfinity"
| "negate NegInfinity = PosInfinity"

text \<open>\<open>Math.min(a, b)\<close>: \<open>NaN\<close> when either argument is.\<close>

fun Math_min :: "number \<Rightarrow> number \<Rightarrow> number" where
  "Math_min NaN b = NaN"
| "Math_min a NaN = NaN"
| "Math_min NegInfinity b = NegInfinity"
| "Math_min a NegInfinity = NegInfinity"
| "Math_min PosInfinity b = b"
| "Math_min a PosInfinity = a"
| "Math_min (Finite a) (Finite b) = Finite (min a b)"

text \<open>The operand of \<open>x || d\<close> is falsy when it is \<open>NaN\<close> or zero.\<close>

fun falsy_number :: "number \<Rightarrow> bool" where
  "falsy_number NaN = True"
| "falsy_number (Finite q) = (q = 0)"
| "falsy_number PosInfinity = False"
| "falsy_number NegInfinity = False"

text \<open>
  An optional string is truthy when it is present and not empty: \<open>if (s)\<close>,
  \<open>s || d\<close>, \<open>!s\<close>.
\<close>

fun truthy :: "string option \<Rightarrow> bool" where
  "truthy None = False"
| "truthy (Some s) = (s \<noteq> [])"

text \<open>\<open>s || d\<close> for an optional string \<open>s\<close> and a string \<open>d\<close>.\<close>

definition or_string :: "string option \<Rightarrow> string \<Rightarrow> string" where
  "or_string s d = (case s of None \<Rightarrow> d | Some v \<Rightarrow> if v = [] then d else v)"

text \<open>\<open>a || b\<close> for two optional strings.\<close>

definition or_option :: "string option \<Rightarrow> string option \<Rightarrow> string option" where
  "or_option a b = (if truthy a then a else b)"

text \<open>\<open>ToIntegerOrInfinity\<close> of ECMAScript: truncation towards zero, \<open>NaN\<close> to 0.\<close>

datatype IntegerOrInfinity = Integer int | PlusInfinity | MinusInfinity

definition trunc :: "rat \<Rightarrow> int" where
  "trunc q = (if q < 0 then \<lceil>q\<rceil> else \<lfloor>q\<rfloor>)"

fun ToIntegerOrInfinity :: "number \<Rightarrow> IntegerOrInfinity" where
  "ToIntegerOrInfinity NaN = Integer 0"
| "ToIntegerOrInfinity (Finite q) = Integer (trunc q)"
| "ToIntegerOrInfinity PosInfinity = PlusInfinity"
| "ToIntegerOrInfinity NegInfinity = MinusInfinity"

text \<open>
  \<open>Array.prototype.slice(start)\<close> with no end: a negative start counts from the end
  of the array, and the start is clamped to the array.
\<close>

definition slice :: "'a list \<Rightarrow> number \<Rightarrow> 'a list" where
  "slice xs start =
     (let len = int (length xs);
          k = (case ToIntegerOrInfinity start of
                 MinusInfinity \<Rightarrow> 0
               | Integer relativeStart \<Rightarrow>
                   if relativeStart < 0 then max (len + relativeStart) 0
                   else min relativeStart len
               | PlusInfinity \<Rightarrow> len)
      in drop (nat k) xs)"

text \<open>\<open>String.prototype.includes\<close>: the pattern occurs somewhere in the string.\<close>

fun str_includes :: "string \<Rightarrow> string \<Rightarrow> bool" where
  "str_includes [] pat = (pat = [])"
| "str_includes (c # cs) pat = (prefix pat (c # cs) \<or> str_includes cs pat)"

section \<open>The Express request, as far as the two middlewares read it\<close>

record Body =
  reason :: "string option"
  body_message :: "string option"

text \<open>
  \<open>originalUrl\<close> is the path of the inbound URL; \<open>req_path\<close> is what \<open>req.path\<close>
  evaluates to where it is read; \<open>cookie_header\<close> holds the cookies that the
  \<open>Cookie\<close> header of the request carries, by name; \<open>session_id\<close> is the value of
  \<open>req.cookies?.["session_id"]\<close> where it is read: undefined as long as no cookie
  parser has run, whatever the header carries.
\<close>

record Request =
  originalUrl :: string
  req_path :: string
  req_method :: string
  authorization :: "string option"
  cookie_header :: "(string \<times> string) list"
  session_id :: "string option"
  req_ip :: "string option"
  remoteAddress :: "string option"
  user_agent :: "string option"
  req_userId :: "string option"
  req_params :: "(string \<times> string) list"
  req_query :: "(string \<times> string) list"
  body :: "Body option"

section \<open>The activity recorder (middleware/activityLogger)\<close>

text \<open>
  The interface \<open>Activity\<close>; its field \<open>method\<close> is \<open>http_method\<close> here.
\<close>

record Activity =
  userId :: "string option"
  timestamp :: int
  http_method :: string
  path :: string
  ip :: string
  userAgent :: string
  statusCode :: "nat option"
  params :: "(string \<times> string) list option"
  query :: "(string \<times> string) list option"
  duration :: number
  message :: "string option"

text \<open>\<open>Partial<Activity>\<close>: every field may be missing.\<close>

record PartialActivity =
  entry_userId :: "string option"
  entry_timestamp :: "int option"
  entry_method :: "string option"
  entry_path :: "string option"
  entry_ip :: "string option"
  entry_userAgent :: "string option"
  entry_statusCode :: "nat option"
  entry_params :: "(string \<times> string) list option"
  entry_query :: "(string \<times> string) list option"
  entry_duration :: "number option"
  entry_message :: "string option"

definition MAX_ACTIVITIES :: nat where
  "MAX_ACTIVITIES = 10000"

text \<open>
  \<open>activities.push(activity); if (activities.length > MAX_ACTIVITIES) activities.shift()\<close>,
  as both the response hook and \<open>logActivity\<close> do it.
\<close>

definition push_shift :: "Activity \<Rightarrow> Activity list \<Rightarrow> Activity list" where
  "push_shift activity activities =
     (let pushed = activities @ [activity]
      in if length pushed > MAX_ACTIVITIES then tl pushed else pushed)"

definition isImportantOperation :: "string \<Rightarrow> string \<Rightarrow> bool" where
  "isImportantOperation m p =
     (if m \<in> set [''POST'', ''PUT'', ''PATCH'', ''DELETE''] then True
      else if str_includes p ''/api/admin'' then True
      else if str_includes p ''/api/auth'' then True
      else False)"

text \<open>
  The record that the overridden \<open>res.send\<close> builds, from the request as it stands when
  the response is sent, the response's status code, and the clock at the start of the
  request and now.
\<close>

definition sent_activity :: "int \<Rightarrow> int \<Rightarrow> Request \<Rightarrow> nat \<Rightarrow> Activity" where
  "sent_activity startTime now req res_statusCode =
     \<lparr> userId = req_userId req,
       timestamp = now,
       http_method = req_method req,
       path = req_path req,
       ip = or_string (or_option (req_ip req) (remoteAddress req)) ''unknown'',
       userAgent = or_string (user_agent req) ''unknown'',
       statusCode = Some res_statusCode,
       params = (if length (req_params req) > 0 then Some (req_params req) else None),
       query = (if length (req_query req) > 0 then Some (req_query req) else None),
       duration = Finite (of_int (now - startTime)),
       message = (case body req of
                    None \<Rightarrow> None
                  | Some b \<Rightarrow>
                      (let m = or_option (reason b) (body_message b)
                       in if truthy m then m else None)) \<rparr>"

text \<open>The overridden \<open>res.send\<close> of \<open>activityLogger\<close>, on the shared sequence.\<close>

definition activityLogger_send ::
  "int \<Rightarrow> int \<Rightarrow> Request \<Rightarrow> nat \<Rightarrow> Activity list \<Rightarrow> Activity list" where
  "activityLogger_send startTime now req res_statusCode activities =
     (let activity = sent_activity startTime now req res_statusCode
      in if isImportantOperation (req_method req) (req_path req)
         then push_shift activity activities
         else activities)"

text \<open>The record that \<open>logActivity\<close> builds from a partial entry; \<open>now\<close> is \<open>new Date()\<close>.\<close>

definition logged_activity :: "PartialActivity \<Rightarrow> int \<Rightarrow> Activity" where
  "logged_activity entry now =
     \<lparr> userId = entry_userId entry,
       timestamp = (case entry_timestamp entry of Some t \<Rightarrow> t | None \<Rightarrow> now),
       http_method = or_string (entry_method entry) ''SYSTEM'',
       path = or_string (entry_path entry) ''/internal'',
       ip = or_string (entry_ip entry) ''127.0.0.1'',
       userAgent = or_string (entry_userAgent entry) ''system'',
       statusCode = entry_statusCode entry,
       params = entry_params entry,
       query = entry_query entry,
       duration = (case entry_duration entry of
                     None \<Rightarrow> Finite 0
                   | Some d \<Rightarrow> if falsy_number d then Finite 0 else d),
       message = entry_message entry \<rparr>"

definition logActivity :: "PartialActivity \<Rightarrow> int \<Rightarrow> Activity list \<Rightarrow> Activity list" where
  "logActivity entry now activities = push_shift (logged_activity entry now) activities"

text \<open>
  \<open>getActivityLogs(userId?, method?, limit = 100)\<close> on the sequence \<open>activities\<close>.
\<close>

definition getActivityLogs ::
  "Activity list \<Rightarrow> string option \<Rightarrow> string option \<Rightarrow> number option \<Rightarrow> Activity list" where
  "getActivityLogs activities uid m limitArg =
     (let limit = (case limitArg of None \<Rightarrow> Finite 100 | Some l \<Rightarrow> l);
          filtered = activities;
          filtered = (if truthy uid then filter (\<lambda>a. userId a = uid) filtered else filtered);
          filtered = (if truthy m then filter (\<lambda>a. Some (http_method a) = m) filtered else filtered)
      in rev (slice filtered (negate limit)))"

text \<open>
  The limit that the route \<open>GET /activity-logs\<close> passes on:
  \<open>Math.min(Number(req.query.limit) || 100, 1000)\<close>, where \<open>n\<close> is the value of
  \<open>Number(req.query.limit)\<close>.
\<close>

definition route_limit :: "number \<Rightarrow> number" where
  "route_limit n = Math_min (if falsy_number n then Finite 100 else n) (Finite 1000)"

subsection \<open>Sequences of appends\<close>

text \<open>
  The two ways a record reaches the sequence: the response hook of \<open>activityLogger\<close>
  (start time, time of the response, request, status code) and a call of \<open>logActivity\<close>
  (entry, time of the call).
\<close>

datatype Append = Sent int int Request nat | Logged PartialActivity int

fun append_step :: "Append \<Rightarrow> Activity list \<Rightarrow> Activity list" where
  "append_step (Sent startTime now req res_statusCode) activities =
     activityLogger_send startTime now req res_statusCode activities"
| "append_step (Logged entry now) activities = logActivity entry now activities"

fun run_appends :: "Append list \<Rightarrow> Activity list \<Rightarrow> Activity list" where
  "run_appends [] activities = activities"
| "run_appends (e # es) activities = run_appends es (append_step e activities)"

text \<open>Whether an append passes the importance filter, and the record it carries.\<close>

fun kept :: "Append \<Rightarrow> bool" where
  "kept (Sent startTime now req res_statusCode) =
     isImportantOperation (req_method req) (req_path req)"
| "kept (Logged entry now) = True"

fun record_of :: "Append \<Rightarrow> Activity" where
  "record_of (Sent startTime now req res_statusCode) =
     sent_activity startTime now req res_statusCode"
| "record_of (Logged entry now) = logged_activity entry now"

text \<open>The entry \<open>{}\<close>: no field set.\<close>

definition emptyEntry :: PartialActivity where
  "emptyEntry =
     \<lparr> entry_userId = None, entry_timestamp = None, entry_method = None,
       entry_path = None, entry_ip = None, entry_userAgent = None,
       entry_statusCode = None, entry_params = None, entry_query = None,
       entry_duration = None, entry_message = None \<rparr>"

text \<open>
  A request with the given method, URL path and \<open>Authorization\<close> header from the client
  address \<open>203.0.113.7\<close>, with no cookie, parameter or body.
\<close>

definition plainRequest :: "string \<Rightarrow> string \<Rightarrow> string option \<Rightarrow> Request" where
  "plainRequest m url auth =
     \<lparr> originalUrl = url, req_path = url, req_method = m, authorization = auth,
       cookie_header = [], session_id = None, req_ip = Some ''203.0.113.7'',
       remoteAddress = Some ''203.0.113.7'', user_agent = None, req_userId = None,
       req_params = [], req_query = [], body = None \<rparr>"

text \<open>
  A request with the given method, URL path and cookies and no \<open>Authorization\<close> header,
  as the server receives it: no middleware has parsed the cookies yet, so \<open>req.cookies\<close>
  is undefined.
\<close>

definition cookieRequest :: "string \<Rightarrow> string \<Rightarrow> (string \<times> string) list \<Rightarrow> Request" where
  "cookieRequest m url cookies = (plainRequest m url None)\<lparr>cookie_header := cookies\<rparr>"

section \<open>The admission controller (the rate limiters of the server's entry file)\<close>

subsection \<open>The role of a caller\<close>

text \<open>
  \<open>jwt.verify(token, secret)\<close> is a parameter: a function from the token to the decoded
  payload, \<open>None\<close> where \<open>jwt.verify\<close> throws (malformed, expired, bad signature).
\<close>

record JwtPayload =
  jwt_userId :: "string option"
  userRole :: "string option"

type_synonym Verify = "string \<Rightarrow> JwtPayload option"

definition getUserRoleFromToken :: "Verify \<Rightarrow> string option \<Rightarrow> string" where
  "getUserRoleFromToken verify token =
     (case token of
        None \<Rightarrow> ''anonymous''
      | Some t \<Rightarrow>
          if t = [] then ''anonymous''
          else (let cleanToken = (if prefix ''Bearer '' t then drop 7 t else t)
                in case verify cleanToken of
                     None \<Rightarrow> ''anonymous''
                   | Some decoded \<Rightarrow> or_string (userRole decoded) ''user''))"

text \<open>
  The token of a request, as \<open>roleBasedRateLimiter\<close> and the \<open>skip\<close> of \<open>paymentLimiter\<close>
  both extract it:
  \<open>authHeader?.startsWith("Bearer ") ? authHeader.substring(7) : req.cookies?.["session_id"]\<close>.
\<close>

definition bearerOrCookie :: "Request \<Rightarrow> string option" where
  "bearerOrCookie req =
     (case authorization req of
        None \<Rightarrow> session_id req
      | Some authHeader \<Rightarrow>
          if prefix ''Bearer '' authHeader then Some (drop 7 authHeader) else session_id req)"

subsection \<open>The limiter that \<open>rateLimit(options)\<close> returns\<close>

text \<open>
  The options as the source sets them; \<open>max\<close> is \<open>max_requests\<close> and \<open>message\<close> is
  \<open>reply_message\<close> here.
\<close>

record Options =
  windowMs :: int
  max_requests :: nat
  reply_message :: string
  skip :: "Request \<Rightarrow> bool"

text \<open>One counting window of one client key: the hits so far and the time it ends.\<close>

record Window =
  totalHits :: nat
  resetTime :: int

type_synonym Store = "string option \<Rightarrow> Window option"

text \<open>What a middleware does with a request: call \<open>next()\<close>, or reply with a status and a message.\<close>

datatype Outcome = Next | Reply nat string

text \<open>
  The key under which a limiter counts a request. The source sets no \<open>keyGenerator\<close>;
  the default of the package express-rate-limit is the client address \<open>req.ip\<close> (the
  messages of the source speak of "this IP").
\<close>

definition keyGenerator :: "Request \<Rightarrow> string option" where
  "keyGenerator req = req_ip req"

text \<open>
  Modelled from the spec: the store of a limiter, which belongs to the package
  express-rate-limit and is not among the repository's sources. It follows the spec's
  RateWindow: a window of \<open>windowMs\<close> starts with the first counted request, each counted
  request increments its count, and once the window has elapsed the next request starts a
  new one with count 1. The spec speaks of one window per role; the package keeps one per
  client key under each limiter, and so does the model (for requests of one address the
  two are the same).
\<close>

definition increment :: "Options \<Rightarrow> int \<Rightarrow> string option \<Rightarrow> Store \<Rightarrow> Window" where
  "increment options now key store =
     (case store key of
        None \<Rightarrow> \<lparr> totalHits = 1, resetTime = now + windowMs options \<rparr>
      | Some w \<Rightarrow>
          if resetTime w \<le> now
          then \<lparr> totalHits = 1, resetTime = now + windowMs options \<rparr>
          else w\<lparr> totalHits := totalHits w + 1 \<rparr>)"

text \<open>
  Modelled from the spec: the middleware that \<open>rateLimit(options)\<close> of the package
  express-rate-limit returns, which is not among the repository's sources. It follows step
  4 of the spec's algorithm: the request is counted, then rejected with status 429 and the
  limiter's message when the count exceeds \<open>max\<close>, and forwarded otherwise. A request for
  which \<open>skip\<close> holds is forwarded and not counted. The rate-limit headers are left out.
\<close>

definition rateLimit :: "Options \<Rightarrow> int \<Rightarrow> Request \<Rightarrow> Store \<Rightarrow> Outcome \<times> Store" where
  "rateLimit options now req store =
     (if skip options req then (Next, store)
      else (let key = keyGenerator req;
                w = increment options now key store;
                store' = store(key \<mapsto> w)
            in if totalHits w > max_requests options
               then (Reply 429 (reply_message options), store')
               else (Next, store')))"

subsection \<open>The four limiters and the role-based middleware\<close>

definition hotelOwnerLimiter :: Options where
  "hotelOwnerLimiter =
     \<lparr> windowMs = 15 * 60 * 1000,
       max_requests = 500,
       reply_message =
         ''Too many requests from this IP, please try again later. (Hotel Owner Rate Limit)'',
       skip = (\<lambda>req. False) \<rparr>"

definition userLimiter :: Options where
  "userLimiter =
     \<lparr> windowMs = 15 * 60 * 1000,
       max_requests = 300,
       reply_message =
         ''Too many requests from this IP, please try again later. (User Rate Limit)'',
       skip = (\<lambda>req. False) \<rparr>"

definition anonLimiter :: Options where
  "anonLimiter =
     \<lparr> windowMs = 15 * 60 * 1000,
       max_requests = 100,
       reply_message =
         ''Too many requests from this IP, please try again later. (Anonymous Rate Limit)'',
       skip = (\<lambda>req. False) \<rparr>"

definition paymentLimiter :: "Verify \<Rightarrow> Options" where
  "paymentLimiter verify =
     \<lparr> windowMs = 15 * 60 * 1000,
       max_requests = 50,
       reply_message = ''Too many payment requests, please try again later.'',
       skip = (\<lambda>req. let token = bearerOrCookie req;
                        userRole = getUserRoleFromToken verify token
                    in userRole = ''admin'') \<rparr>"

text \<open>The state of the admission controller: the store of each of the four limiters.\<close>

record Limiters =
  hotelOwnerHits :: Store
  userHits :: Store
  anonHits :: Store
  paymentHits :: Store

definition roleBasedRateLimiter ::
  "Verify \<Rightarrow> int \<Rightarrow> Request \<Rightarrow> Limiters \<Rightarrow> Outcome \<times> Limiters" where
  "roleBasedRateLimiter verify now req st =
     (if req_path req = ''/api/health'' \<or> req_path req = ''/api/status''
         \<or> req_path req = ''/api/auth/validate-token''
         \<or> req_path req = ''/api/auth/google-callback''
      then (Next, st)
      else (let token = bearerOrCookie req;
                userRole = getUserRoleFromToken verify token
            in if userRole = ''admin'' then (Next, st)
               else if userRole = ''hotel_owner''
               then (let (out, store) = rateLimit hotelOwnerLimiter now req (hotelOwnerHits st)
                     in (out, st\<lparr>hotelOwnerHits := store\<rparr>))
               else if userRole = ''user''
               then (let (out, store) = rateLimit userLimiter now req (userHits st)
                     in (out, st\<lparr>userHits := store\<rparr>))
               else (let (out, store) = rateLimit anonLimiter now req (anonHits st)
                     in (out, st\<lparr>anonHits := store\<rparr>))))"

subsection \<open>How the middlewares are mounted\<close>

text \<open>
  Express matches a mount path without regard to case, on ASCII letters.
\<close>

definition toLower :: "char \<Rightarrow> char" where
  "toLower c =
     (case map_of (zip ''ABCDEFGHIJKLMNOPQRSTUVWXYZ'' ''abcdefghijklmnopqrstuvwxyz'') c of
        None \<Rightarrow> c
      | Some l \<Rightarrow> l)"

text \<open>
  \<open>app.use("/api/", roleBasedRateLimiter)\<close>. Express runs a middleware mounted at a
  path for the URL paths that begin with the mount path, up to a \<open>/\<close> or the end, and
  hands it the request with the mount point removed: inside the middleware
  \<open>req.path\<close> is the rest of the path (\<open>/\<close> when nothing is left), while
  \<open>req.originalUrl\<close> keeps the whole. \<open>api_mount url\<close> is the \<open>req.path\<close> that the
  middleware reads for the URL path \<open>url\<close>, and \<open>None\<close> when the middleware is not run.
\<close>

definition api_mount :: "string \<Rightarrow> string option" where
  "api_mount url =
     (if prefix ''/api'' (map toLower url)
      then (case drop 4 url of
              [] \<Rightarrow> Some ''/''
            | c # cs \<Rightarrow>
                if c = CHR ''/''
                then (case cs of
                        [] \<Rightarrow> Some ''/''
                      | d # ds \<Rightarrow> if d = CHR ''/'' then Some cs else Some (c # cs))
                else None)
      else None)"

text \<open>
  \<open>app.use("/api/hotels/*/bookings/payment-intent", paymentLimiter)\<close>: the URL path
  begins with \<open>/api/hotels/\<close>, then anything, then \<open>/bookings/payment-intent\<close> up to a
  \<open>/\<close> or the end.
\<close>

definition segment_here :: "string \<Rightarrow> bool" where
  "segment_here s =
     (prefix ''/bookings/payment-intent'' s
      \<and> (case drop 24 s of [] \<Rightarrow> True | c # cs \<Rightarrow> c = CHR ''/''))"

fun segment_within :: "string \<Rightarrow> bool" where
  "segment_within [] = False"
| "segment_within (c # cs) = (segment_here (c # cs) \<or> segment_within cs)"

definition payment_mount :: "string \<Rightarrow> bool" where
  "payment_mount url =
     (prefix ''/api/hotels/'' (map toLower url)
      \<and> segment_within (drop 12 (map toLower url)))"

text \<open>
  The two mounted limiters in the order of the \<open>app.use\<close> calls: a request that the first
  rejects does not reach the second.
\<close>

definition apiStage :: "Verify \<Rightarrow> int \<Rightarrow> Request \<Rightarrow> Limiters \<Rightarrow> Outcome \<times> Limiters" where
  "apiStage verify now req st =
     (case api_mount (originalUrl req) of
        None \<Rightarrow> (Next, st)
      | Some p \<Rightarrow> roleBasedRateLimiter verify now (req\<lparr>req_path := p\<rparr>) st)"

definition paymentStage :: "Verify \<Rightarrow> int \<Rightarrow> Request \<Rightarrow> Limiters \<Rightarrow> Outcome \<times> Limiters" where
  "paymentStage verify now req st =
     (if payment_mount (originalUrl req)
      then (let (out, store) = rateLimit (paymentLimiter verify) now req (paymentHits st)
            in (out, st\<lparr>paymentHits := store\<rparr>))
      else (Next, st))"

definition admission :: "Verify \<Rightarrow> int \<Rightarrow> Request \<Rightarrow> Limiters \<Rightarrow> Outcome \<times> Limiters" where
  "admission verify now req st =
     (case apiStage verify now req st of
        (Next, st') \<Rightarrow> paymentStage verify now req st'
      | (Reply code msg, st') \<Rightarrow> (Reply code msg, st'))"

text \<open>
  \<open>app.use(cookieParser())\<close> comes after both \<open>app.use\<close> calls of the limiters, so it
  runs on the requests that they have forwarded: from then on \<open>req.cookies\<close> holds the
  cookies of the header.
\<close>

definition cookieParser :: "Request \<Rightarrow> Request" where
  "cookieParser req = req\<lparr>session_id := map_of (cookie_header req) ''session_id''\<rparr>"

text \<open>A sequence of requests, each with the time it arrives, through a middleware.\<close>

fun run ::
  "(int \<Rightarrow> Request \<Rightarrow> 's \<Rightarrow> Outcome \<times> 's) \<Rightarrow> (int \<times> Request) list \<Rightarrow> 's \<Rightarrow> Outcome list \<times> 's" where
  "run step [] st = ([], st)"
| "run step ((now, req) # rest) st =
     (let (out, st') = step now req st;
          (outs, st'') = run step rest st'
      in (out # outs, st''))"

text \<open>The limiters' stores when the server starts: no window for any key.\<close>

definition initialLimiters :: Limiters where
  "initialLimiters =
     \<lparr> hotelOwnerHits = (\<lambda>key. None), userHits = (\<lambda>key. None),
       anonHits = (\<lambda>key. None), paymentHits = (\<lambda>key. None) \<rparr>"

text \<open>
  A verification function for the examples: three tokens verify, with the roles
  \<open>admin\<close>, \<open>user\<close> and none; every other token fails.
\<close>

definition sampleVerify :: Verify where
  "sampleVerify token =
     (if token = ''admin-token''
      then Some \<lparr> jwt_userId = Some ''a1'', userRole = Some ''admin'' \<rparr>
      else if token = ''user-token''
      then Some \<lparr> jwt_userId = Some ''u1'', userRole = Some ''user'' \<rparr>
      else if token = ''no-role-token''
      then Some \<lparr> jwt_userId = Some ''u2'', userRole = None \<rparr>
      else None)"

subsection \<open>The limiter and the store that \<open>roleBasedRateLimiter\<close> selects for a role\<close>

text \<open>
  The last three branches of \<open>roleBasedRateLimiter\<close>, by the role: the options of the
  limiter it calls, and the store which that limiter reads and writes.
\<close>

definition limiterOf :: "string \<Rightarrow> Options" where
  "limiterOf role =
     (if role = ''hotel_owner'' then hotelOwnerLimiter
      else if role = ''user'' then userLimiter
      else anonLimiter)"

definition hitsOf :: "string \<Rightarrow> Limiters \<Rightarrow> Store" where
  "hitsOf role st =
     (if role = ''hotel_owner'' then hotelOwnerHits st
      else if role = ''user'' then userHits st
      else anonHits st)"

definition setHits :: "string \<Rightarrow> Store \<Rightarrow> Limiters \<Rightarrow> Limiters" where
  "setHits role store st =
     (if role = ''hotel_owner'' then st\<lparr>hotelOwnerHits := store\<rparr>
      else if role = ''user'' then st\<lparr>userHits := store\<rparr>
      else st\<lparr>anonHits := store\<rparr>)"

text \<open>
  A request that the role-based limiter counts under the role \<open>role\<close> and the client key
  \<open>key\<close>: its URL path is under the mount \<open>/api/\<close>, the path that the middleware reads
  is none of the four exempt ones, its token resolves to \<open>role\<close>, and its address is
  \<open>key\<close>.
\<close>

definition counted :: "Verify \<Rightarrow> string \<Rightarrow> string option \<Rightarrow> Request \<Rightarrow> bool" where
  "counted verify role key req =
     (getUserRoleFromToken verify (bearerOrCookie req) = role
      \<and> req_ip req = key
      \<and> (case api_mount (originalUrl req) of
            None \<Rightarrow> False
          | Some p \<Rightarrow>
              p \<notin> set [''/api/health'', ''/api/status'', ''/api/auth/validate-token'',
                         ''/api/auth/google-callback'']))"

text \<open>A store has no live window for a key at a time: none at all, or one that has ended.\<close>

definition fresh :: "Store \<Rightarrow> string option \<Rightarrow> int \<Rightarrow> bool" where
  "fresh store key now =
     (case store key of None \<Rightarrow> True | Some w \<Rightarrow> resetTime w \<le> now)"

section \<open>Properties of the activity recorder\<close>

lemma push_shift_drop:
  "length activities \<le> MAX_ACTIVITIES \<Longrightarrow>
   push_shift a activities =
     drop (length (activities @ [a]) - MAX_ACTIVITIES) (activities @ [a])"
  by (cases activities) (auto simp: push_shift_def Let_def drop_Cons' Suc_diff_le)

lemma push_shift_length:
  "length activities \<le> MAX_ACTIVITIES \<Longrightarrow>
   length (push_shift a activities) \<le> MAX_ACTIVITIES"
  by (auto simp: push_shift_def Let_def)

lemma push_shift_last:
  "push_shift a activities =
     (if length activities < MAX_ACTIVITIES then activities else tl activities) @ [a]"
  by (cases activities) (auto simp: push_shift_def Let_def MAX_ACTIVITIES_def)

lemma append_step_eq:
  "append_step e activities =
     (if kept e then push_shift (record_of e) activities else activities)"
  by (cases e) (auto simp: activityLogger_send_def logActivity_def Let_def)

text \<open>
  Keeping the last \<open>M\<close> elements, appending, and keeping the last \<open>M\<close> again is keeping
  the last \<open>M\<close> of the whole.
\<close>

lemma drop_window:
  "drop (length (drop (length X - M) X @ R) - M) (drop (length X - M) X @ R)
     = drop (length (X @ R) - M) (X @ R)"
proof (cases "length X \<le> M")
  case True
  then show ?thesis by simp
next
  case False
  define d where "d = length X - M"
  have d: "d \<le> length X" "length X - d = M"
    using False by (simp_all add: d_def)
  have "drop (length (drop d X @ R) - M) (drop d X @ R) = drop (length R) (drop d X @ R)"
    using d by simp
  also have "drop d X @ R = drop d (X @ R)"
    using d by simp
  also have "drop (length R) (drop d (X @ R)) = drop (length R + d) (X @ R)"
    by (rule drop_drop)
  also have "length R + d = length (X @ R) - M"
    using False by (simp add: d_def)
  finally show ?thesis by (simp add: d_def)
qed

lemma run_appends_window:
  "length activities \<le> MAX_ACTIVITIES \<Longrightarrow>
   run_appends es activities =
     drop (length (activities @ map record_of (filter kept es)) - MAX_ACTIVITIES)
          (activities @ map record_of (filter kept es))"
proof (induction es arbitrary: activities)
  case Nil
  then show ?case by simp
next
  case (Cons e es)
  show ?case
  proof (cases "kept e")
    case False
    then show ?thesis using Cons by (simp add: append_step_eq)
  next
    case True
    let ?a = "record_of e"
    let ?rest = "map record_of (filter kept es)"
    have len: "length (push_shift ?a activities) \<le> MAX_ACTIVITIES"
      using Cons.prems by (rule push_shift_length)
    have "run_appends (e # es) activities = run_appends es (push_shift ?a activities)"
      using True by (simp add: append_step_eq)
    also have "\<dots> = drop (length (push_shift ?a activities @ ?rest) - MAX_ACTIVITIES)
                        (push_shift ?a activities @ ?rest)"
      using Cons.IH [OF len] .
    also have "\<dots> = drop (length ((activities @ [?a]) @ ?rest) - MAX_ACTIVITIES)
                        ((activities @ [?a]) @ ?rest)"
      unfolding push_shift_drop [OF Cons.prems] by (rule drop_window)
    finally show ?thesis using True by simp
  qed
qed

text \<open>
  C3. Starting from a sequence within the cap (the module starts with the empty one),
  after any sequence of appends, by the response hook or by \<open>logActivity\<close>, the sequence
  has at most 10,000 entries and is exactly the last 10,000 of the old entries followed by
  the records appended, in the order of the appends; and each append that passes the
  filter puts its record last and, when the sequence was full, drops the single oldest
  entry.
\<close>

theorem activities_capped_fifo:
  assumes "length activities \<le> MAX_ACTIVITIES"
  shows "length (run_appends es activities) \<le> MAX_ACTIVITIES
       \<and> run_appends es activities =
           drop (length (activities @ map record_of (filter kept es)) - MAX_ACTIVITIES)
                (activities @ map record_of (filter kept es))
       \<and> append_step e activities =
           (if kept e
            then (if length activities < MAX_ACTIVITIES then activities else tl activities)
                  @ [record_of e]
            else activities)
       \<and> MAX_ACTIVITIES = 10000"
proof -
  have "run_appends es activities =
           drop (length (activities @ map record_of (filter kept es)) - MAX_ACTIVITIES)
                (activities @ map record_of (filter kept es))"
    using assms by (rule run_appends_window)
  moreover from this have "length (run_appends es activities) \<le> MAX_ACTIVITIES"
    by simp
  moreover have "append_step e activities =
           (if kept e
            then (if length activities < MAX_ACTIVITIES then activities else tl activities)
                  @ [record_of e]
            else activities)"
    by (simp add: append_step_eq push_shift_last)
  ultimately show ?thesis by (simp add: MAX_ACTIVITIES_def)
qed

theorem activities_capped_fifo_witness:
  "length ([] :: Activity list) \<le> MAX_ACTIVITIES
   \<and> length (run_appends (map (\<lambda>i. Logged emptyEntry (int i)) [0..<10001]) []) = 10000
   \<and> run_appends (map (\<lambda>i. Logged emptyEntry (int i)) [0..<10001]) []
       = map (\<lambda>i. logged_activity emptyEntry (int i)) [1..<10001]"
proof -
  have h: "length ([] :: Activity list) \<le> MAX_ACTIVITIES"
    by simp
  have k: "filter kept (map (\<lambda>i. Logged emptyEntry (int i)) [0..<10001])
             = map (\<lambda>i. Logged emptyEntry (int i)) [0..<10001]"
    by (simp add: filter_map o_def)
  have "run_appends (map (\<lambda>i. Logged emptyEntry (int i)) [0..<10001]) []
       = map (\<lambda>i. logged_activity emptyEntry (int i)) [1..<10001]"
    using activities_capped_fifo [OF h, of "map (\<lambda>i. Logged emptyEntry (int i)) [0..<10001]"]
    unfolding k by (simp add: MAX_ACTIVITIES_def o_def drop_map)
  then show ?thesis by simp
qed

text \<open>
  C4, as the claim states it, fails: the record that \<open>logActivity\<close> builds from the entry
  with no field set has no actor at all; \<open>"system"\<close> is the default of the caller agent,
  and the fallback of the console line only.
\<close>

theorem logActivity_actor_not_system:
  "userId (last (logActivity emptyEntry 0 [])) = None
   \<and> userId (last (logActivity emptyEntry 0 [])) \<noteq> Some ''system''"
  by (simp add: logActivity_def push_shift_last logged_activity_def emptyEntry_def)

text \<open>
  C4, amended. The entry with no field set gives the record with no actor, verb
  \<open>"SYSTEM"\<close>, path \<open>"/internal"\<close>, address \<open>"127.0.0.1"\<close>, caller agent \<open>"system"\<close>,
  duration zero and the time of the call; \<open>logActivity\<close> puts the record of every entry
  last in the sequence, with no filter; the response hook leaves the sequence as it is for
  a \<open>GET\<close> whose path contains neither \<open>/api/admin\<close> nor \<open>/api/auth\<close>.
\<close>

theorem logActivity_defaults_always_kept:
  "logged_activity emptyEntry now =
     \<lparr> userId = None, timestamp = now, http_method = ''SYSTEM'', path = ''/internal'',
       ip = ''127.0.0.1'', userAgent = ''system'', statusCode = None, params = None,
       query = None, duration = Finite 0, message = None \<rparr>
   \<and> logActivity entry now activities =
       (if length activities < MAX_ACTIVITIES then activities else tl activities)
         @ [logged_activity entry now]
   \<and> (req_method req = ''GET'' \<longrightarrow> \<not> str_includes (req_path req) ''/api/admin''
        \<longrightarrow> \<not> str_includes (req_path req) ''/api/auth''
        \<longrightarrow> activityLogger_send startTime sendTime req res_statusCode activities = activities)"
  by (simp add: logActivity_def push_shift_last logged_activity_def emptyEntry_def
      or_string_def activityLogger_send_def isImportantOperation_def)

theorem logActivity_defaults_always_kept_witness:
  "http_method (logged_activity emptyEntry 5) = ''SYSTEM''
   \<and> path (logged_activity emptyEntry 5) = ''/internal''
   \<and> userAgent (logged_activity emptyEntry 5) = ''system''
   \<and> duration (logged_activity emptyEntry 5) = Finite 0
   \<and> logActivity emptyEntry 5 [] = [logged_activity emptyEntry 5]
   \<and> req_method (plainRequest ''GET'' ''/api/hotels/search'' None) = ''GET''
   \<and> \<not> str_includes (req_path (plainRequest ''GET'' ''/api/hotels/search'' None)) ''/api/admin''
   \<and> \<not> str_includes (req_path (plainRequest ''GET'' ''/api/hotels/search'' None)) ''/api/auth''
   \<and> activityLogger_send 0 5 (plainRequest ''GET'' ''/api/hotels/search'' None) 200 [] = []"
proof -
  have g: "req_method (plainRequest ''GET'' ''/api/hotels/search'' None) = ''GET''"
    by (simp add: plainRequest_def)
  have a: "\<not> str_includes (req_path (plainRequest ''GET'' ''/api/hotels/search'' None)) ''/api/admin''"
    by (simp add: plainRequest_def)
  have b: "\<not> str_includes (req_path (plainRequest ''GET'' ''/api/hotels/search'' None)) ''/api/auth''"
    by (simp add: plainRequest_def)
  note t = logActivity_defaults_always_kept
    [of 5 emptyEntry "[]" "plainRequest ''GET'' ''/api/hotels/search'' None" 0 5 200]
  from t g a b show ?thesis by (simp add: MAX_ACTIVITIES_def)
qed

text \<open>
  C7, at the failing input. With two records in the sequence and no filter, the limit
  \<open>0.5\<close>, which the route passes on as it is, returns both records: \<open>slice(-0.5)\<close>
  truncates its start to 0.
\<close>

theorem getActivityLogs_limit_below_one:
  "route_limit (Finite (1 / 2)) = Finite (1 / 2)
   \<and> getActivityLogs
         [logged_activity (emptyEntry\<lparr>entry_userId := Some ''u1'', entry_method := Some ''DELETE''\<rparr>) 1,
          logged_activity (emptyEntry\<lparr>entry_userId := Some ''u1'', entry_method := Some ''DELETE''\<rparr>) 2]
         (Some ''u1'') (Some ''DELETE'') (Some (route_limit (Finite (1 / 2))))
       = [logged_activity (emptyEntry\<lparr>entry_userId := Some ''u1'', entry_method := Some ''DELETE''\<rparr>) 2,
          logged_activity (emptyEntry\<lparr>entry_userId := Some ''u1'', entry_method := Some ''DELETE''\<rparr>) 1]"
  by (simp add: route_limit_def getActivityLogs_def slice_def trunc_def logged_activity_def
      emptyEntry_def or_string_def)

text \<open>
  From the limit 1 on, \<open>getActivityLogs\<close> returns the \<open>\<lfloor>limit\<rfloor>\<close> most recently
  appended records that pass the filters, the most recent first.
\<close>

lemma slice_last:
  assumes "1 \<le> q"
  shows "rev (slice xs (negate (Finite q))) = take (nat \<lfloor>q\<rfloor>) (rev xs)"
proof -
  have pos: "1 \<le> \<lfloor>q\<rfloor>" using assms by linarith
  have "trunc (- q) = - \<lfloor>q\<rfloor>"
    using assms by (simp add: trunc_def ceiling_def)
  then have "slice xs (negate (Finite q)) = drop (nat (max (int (length xs) - \<lfloor>q\<rfloor>) 0)) xs"
    using pos by (simp add: slice_def Let_def)
  also have "nat (max (int (length xs) - \<lfloor>q\<rfloor>) 0) = length xs - nat \<lfloor>q\<rfloor>"
    using pos by linarith
  finally show ?thesis by (simp add: take_rev)
qed

lemma getActivityLogs_limit_from_one:
  assumes "1 \<le> q"
  shows "getActivityLogs activities uid m (Some (Finite q)) =
     take (nat \<lfloor>q\<rfloor>)
       (rev (filter (\<lambda>a. (if truthy uid then userId a = uid else True)
                        \<and> (if truthy m then Some (http_method a) = m else True)) activities))"
proof -
  have "getActivityLogs activities uid m (Some (Finite q)) =
     rev (slice (filter (\<lambda>a. (if truthy uid then userId a = uid else True)
                        \<and> (if truthy m then Some (http_method a) = m else True)) activities)
            (negate (Finite q)))"
    unfolding getActivityLogs_def Let_def by (simp del: negate.simps)
  then show ?thesis using slice_last [OF assms] by simp
qed





section \<open>Properties of the admission controller\<close>

lemma limiterOf_facts:
  "skip (limiterOf role) req = False"
  "windowMs (limiterOf role) = 900000"
  "0 < max_requests (limiterOf role)"
  "50 \<le> max_requests (limiterOf role)"
  by (simp_all add: limiterOf_def hotelOwnerLimiter_def userLimiter_def anonLimiter_def)

lemma hitsOf_setHits [simp]:
  "hitsOf role (setHits role store st) = store"
  "paymentHits (setHits role store st) = paymentHits st"
  "hitsOf role (st\<lparr>paymentHits := store\<rparr>) = hitsOf role st"
  by (simp_all add: hitsOf_def setHits_def)

lemma rateLimit_counts:
  assumes "\<not> skip options req"
  shows "rateLimit options now req store =
     (if totalHits (increment options now (req_ip req) store) > max_requests options
      then Reply 429 (reply_message options) else Next,
      store(req_ip req \<mapsto> increment options now (req_ip req) store))"
  using assms by (simp add: rateLimit_def keyGenerator_def Let_def)

lemma rateLimit_ignores_path [simp]:
  "rateLimit (limiterOf role) now (req\<lparr>req_path := p\<rparr>) store
     = rateLimit (limiterOf role) now req store"
  by (simp add: rateLimit_def keyGenerator_def limiterOf_facts)

lemma roleBasedRateLimiter_selects:
  assumes "getUserRoleFromToken verify (bearerOrCookie req) = role"
      and "role \<noteq> ''admin''"
      and "req_path req \<notin> set [''/api/health'', ''/api/status'', ''/api/auth/validate-token'',
                                ''/api/auth/google-callback'']"
  shows "roleBasedRateLimiter verify now req st =
     (fst (rateLimit (limiterOf role) now req (hitsOf role st)),
      setHits role (snd (rateLimit (limiterOf role) now req (hitsOf role st))) st)"
  using assms
  by (simp add: roleBasedRateLimiter_def limiterOf_def hitsOf_def setHits_def Let_def
      split: prod.splits)

lemma apiStage_counted:
  assumes "counted verify role key req" and "role \<noteq> ''admin''"
  shows "apiStage verify now req st =
     (if totalHits (increment (limiterOf role) now key (hitsOf role st))
           > max_requests (limiterOf role)
      then Reply 429 (reply_message (limiterOf role)) else Next,
      setHits role
        ((hitsOf role st)(key \<mapsto> increment (limiterOf role) now key (hitsOf role st))) st)"
proof -
  from assms(1) obtain p where p: "api_mount (originalUrl req) = Some p"
    and np: "p \<notin> set [''/api/health'', ''/api/status'', ''/api/auth/validate-token'',
                       ''/api/auth/google-callback'']"
    and role: "getUserRoleFromToken verify (bearerOrCookie req) = role"
    and key: "req_ip req = key"
    by (auto simp: counted_def split: option.splits)
  have tok: "bearerOrCookie (req\<lparr>req_path := p\<rparr>) = bearerOrCookie req"
    by (simp add: bearerOrCookie_def split: option.splits)
  have "apiStage verify now req st = roleBasedRateLimiter verify now (req\<lparr>req_path := p\<rparr>) st"
    by (simp add: apiStage_def p)
  also have "\<dots> =
     (fst (rateLimit (limiterOf role) now req (hitsOf role st)),
      setHits role (snd (rateLimit (limiterOf role) now req (hitsOf role st))) st)"
    using roleBasedRateLimiter_selects [of verify "req\<lparr>req_path := p\<rparr>" role now st]
      role assms(2) np
    by (simp add: tok)
  finally show ?thesis
    by (simp add: rateLimit_counts limiterOf_facts key)
qed

lemma map_upt_shift:
  "map g [0..<Suc n] = g 0 # map (\<lambda>i. g (Suc i)) [0..<n]"
  by (simp add: upt_conv_Cons map_Suc_upt [symmetric] del: upt_Suc)

lemma run_Cons:
  "run step ((now, req) # rest) st =
     (fst (step now req st) # fst (run step rest (snd (step now req st))),
      snd (run step rest (snd (step now req st))))"
  by (simp split: prod.splits)

lemma run_apiStage_in_window:
  assumes "\<forall>(t, req) \<in> set reqs. counted verify role key req \<and> t < R"
      and "role \<noteq> ''admin''"
      and "hitsOf role st key = Some \<lparr> totalHits = c, resetTime = R \<rparr>"
  shows "fst (run (apiStage verify) reqs st) =
           map (\<lambda>i. if c + i < max_requests (limiterOf role) then Next
                     else Reply 429 (reply_message (limiterOf role))) [0..<length reqs]
       \<and> hitsOf role (snd (run (apiStage verify) reqs st)) key =
           Some \<lparr> totalHits = c + length reqs, resetTime = R \<rparr>"
  using assms
proof (induction reqs arbitrary: st c)
  case Nil
  then show ?case by simp
next
  case (Cons tr reqs)
  obtain t req where tr: "tr = (t, req)" by (cases tr)
  have cnt: "counted verify role key req" and t: "t < R"
    using Cons.prems(1) by (auto simp: tr)
  let ?w = "\<lparr> totalHits = Suc c, resetTime = R \<rparr>"
  let ?st = "setHits role ((hitsOf role st)(key \<mapsto> ?w)) st"
  have inc: "increment (limiterOf role) t key (hitsOf role st) = ?w"
    using Cons.prems(3) t by (simp add: increment_def)
  have step: "apiStage verify t req st =
      (if c < max_requests (limiterOf role) then Next
       else Reply 429 (reply_message (limiterOf role)), ?st)"
    using apiStage_counted [OF cnt Cons.prems(2), of t st] by (auto simp: inc)
  have rest: "\<forall>(t, req) \<in> set reqs. counted verify role key req \<and> t < R"
    using Cons.prems(1) by simp
  have st': "hitsOf role ?st key = Some \<lparr> totalHits = Suc c, resetTime = R \<rparr>"
    by simp
  note IH = Cons.IH [OF rest Cons.prems(2) st']
  show ?case
    unfolding tr run_Cons step using IH
    by (simp add: map_upt_shift del: upt_Suc run.simps)
qed

lemma verdicts_replicate:
  "map (\<lambda>i. if i < m then a else b) [0..<n] = replicate (min n m) a @ replicate (n - m) b"
proof (induction n)
  case 0
  then show ?case by simp
next
  case (Suc n)
  show ?case
  proof (cases "n < m")
    case True
    then have "min (Suc n) m = Suc (min n m)" "Suc n - m = 0" "n - m = 0"
      by simp_all
    then show ?thesis using Suc True by (simp add: replicate_append_same)
  next
    case False
    then have "min (Suc n) m = min n m" "Suc n - m = Suc (n - m)"
      by simp_all
    then show ?thesis
      using Suc False by (simp add: replicate_append_same)
  qed
qed

lemma run_apiStage_fresh:
  assumes "\<forall>(t, req) \<in> set ((t1, req1) # rest). counted verify role key req \<and> t < t1 + 900000"
      and "role \<noteq> ''admin''"
      and "fresh (hitsOf role st) key t1"
  shows "fst (run (apiStage verify) ((t1, req1) # rest) st) =
           map (\<lambda>i. if i < max_requests (limiterOf role) then Next
                     else Reply 429 (reply_message (limiterOf role))) [0..<Suc (length rest)]
       \<and> hitsOf role (snd (run (apiStage verify) ((t1, req1) # rest) st)) key =
           Some \<lparr> totalHits = Suc (length rest), resetTime = t1 + 900000 \<rparr>"
proof -
  have cnt: "counted verify role key req1"
    using assms(1) by simp
  let ?w = "\<lparr> totalHits = Suc 0, resetTime = t1 + 900000 \<rparr>"
  let ?st = "setHits role ((hitsOf role st)(key \<mapsto> ?w)) st"
  have inc: "increment (limiterOf role) t1 key (hitsOf role st) = ?w"
    using assms(3) by (simp add: increment_def fresh_def limiterOf_facts split: option.splits)
  have step: "apiStage verify t1 req1 st = (Next, ?st)"
    using apiStage_counted [OF cnt assms(2), of t1 st] limiterOf_facts(3) [of role]
    by (simp add: inc)
  have rest: "\<forall>(t, req) \<in> set rest. counted verify role key req \<and> t < t1 + 900000"
    using assms(1) by simp
  have st': "hitsOf role ?st key = Some \<lparr> totalHits = Suc 0, resetTime = t1 + 900000 \<rparr>"
    by simp
  note W = run_apiStage_in_window [OF rest assms(2) st']
  show ?thesis
    unfolding run_Cons step using W limiterOf_facts(3) [of role]
    by (simp add: map_upt_shift del: upt_Suc run.simps)
qed

lemma apiStage_after_window:
  assumes "counted verify role key req" and "role \<noteq> ''admin''"
      and "hitsOf role st key = Some \<lparr> totalHits = c, resetTime = R \<rparr>" and "R \<le> now"
  shows "fst (apiStage verify now req st) = Next"
proof -
  have "increment (limiterOf role) now key (hitsOf role st)
          = \<lparr> totalHits = 1, resetTime = now + 900000 \<rparr>"
    using assms(3,4) by (simp add: increment_def limiterOf_facts)
  then show ?thesis
    using apiStage_counted [OF assms(1,2), of now st] limiterOf_facts(3) [of role]
    by simp
qed

text \<open>
  What the role-based limiter does with the requests that it counts under one role other
  than \<open>admin\<close> and one client address, the first at a time \<open>t1\<close> when that address has
  no live window in the role's limiter, all of them before \<open>t1\<close> plus 15 minutes: for
  role \<open>user\<close> the first 300 are forwarded and every later one is rejected with status 429
  and the user message; likewise 500 for \<open>hotel_owner\<close> and 100 for \<open>anonymous\<close>. A
  counted request of the same role and address that arrives 15 minutes after \<open>t1\<close> or
  later is forwarded again.
\<close>

lemma role_ceiling_counted:
  assumes "\<forall>(t, req) \<in> set ((t1, req1) # rest).
             counted verify role key req \<and> t < t1 + 15 * 60 * 1000"
      and "role \<noteq> ''admin''"
      and "fresh (hitsOf role st) key t1"
      and "counted verify role key req'"
      and "t1 + 15 * 60 * 1000 \<le> t'"
  shows "(role = ''user'' \<longrightarrow>
            fst (run (apiStage verify) ((t1, req1) # rest) st) =
              map (\<lambda>i. if i < 300 then Next
                        else Reply 429
                          ''Too many requests from this IP, please try again later. (User Rate Limit)'')
                  [0..<Suc (length rest)])
       \<and> (role = ''hotel_owner'' \<longrightarrow>
            fst (run (apiStage verify) ((t1, req1) # rest) st) =
              map (\<lambda>i. if i < 500 then Next
                        else Reply 429
                          ''Too many requests from this IP, please try again later. (Hotel Owner Rate Limit)'')
                  [0..<Suc (length rest)])
       \<and> (role = ''anonymous'' \<longrightarrow>
            fst (run (apiStage verify) ((t1, req1) # rest) st) =
              map (\<lambda>i. if i < 100 then Next
                        else Reply 429
                          ''Too many requests from this IP, please try again later. (Anonymous Rate Limit)'')
                  [0..<Suc (length rest)])
       \<and> fst (apiStage verify t' req' (snd (run (apiStage verify) ((t1, req1) # rest) st))) = Next"
proof -
  have reqs: "\<forall>(t, req) \<in> set ((t1, req1) # rest). counted verify role key req \<and> t < t1 + 900000"
    using assms(1) by auto
  note F = run_apiStage_fresh [OF reqs assms(2,3)]
  have later: "fst (apiStage verify t' req' (snd (run (apiStage verify) ((t1, req1) # rest) st))) = Next"
    using apiStage_after_window [OF assms(4) assms(2) conjunct2 [OF F]] assms(5)
    by simp
  have "role = ''user'' \<longrightarrow> limiterOf role = userLimiter"
    and "role = ''hotel_owner'' \<longrightarrow> limiterOf role = hotelOwnerLimiter"
    and "role = ''anonymous'' \<longrightarrow> limiterOf role = anonLimiter"
    by (simp_all add: limiterOf_def)
  then show ?thesis
    using conjunct1 [OF F] later
    by (auto simp: userLimiter_def hotelOwnerLimiter_def anonLimiter_def simp del: upt_Suc run.simps)
qed

lemma admission_off_payment_mount:
  assumes "\<not> payment_mount (originalUrl req)"
  shows "admission verify now req st = apiStage verify now req st"
proof (cases "apiStage verify now req st")
  case (Pair out st')
  then show ?thesis
    using assms by (cases out) (simp_all add: admission_def paymentStage_def)
qed

lemma run_admission_off_payment_mount:
  assumes "\<forall>(t, req) \<in> set reqs. \<not> payment_mount (originalUrl req)"
  shows "run (admission verify) reqs st = run (apiStage verify) reqs st"
  using assms
proof (induction reqs arbitrary: st)
  case Nil
  then show ?case by simp
next
  case (Cons tr reqs)
  obtain t req where tr: "tr = (t, req)" by (cases tr)
  have "admission verify t req st = apiStage verify t req st"
    using Cons.prems by (simp add: tr admission_off_payment_mount)
  then show ?case
    using Cons by (simp add: tr)
qed

lemma anonymous_hundred_then_rejected:
  assumes "counted verify ''anonymous'' key req"
      and "fresh (anonHits st) key t"
  shows "fst (run (apiStage verify) ((t, req) # replicate 100 (t, req)) st)
       = replicate 100 Next
         @ [Reply 429 ''Too many requests from this IP, please try again later. (Anonymous Rate Limit)'']"
proof -
  have h1: "\<forall>(t', req') \<in> set ((t, req) # replicate 100 (t, req)).
              counted verify ''anonymous'' key req' \<and> t' < t + 900000"
    using assms(1) by simp
  have h3: "fresh (hitsOf ''anonymous'' st) key t"
    using assms(2) by (simp add: hitsOf_def)
  have "fst (run (apiStage verify) ((t, req) # replicate 100 (t, req)) st)
      = map (\<lambda>i. if i < 100 then Next
                  else Reply 429
                    ''Too many requests from this IP, please try again later. (Anonymous Rate Limit)'')
            [0..<101]"
    using conjunct1 [OF run_apiStage_fresh [OF h1 _ h3]]
    by (simp add: limiterOf_def anonLimiter_def del: upt_Suc run.simps)
  also have "\<dots> = replicate 100 Next
         @ [Reply 429 ''Too many requests from this IP, please try again later. (Anonymous Rate Limit)'']"
    unfolding verdicts_replicate by simp
  finally show ?thesis .
qed

text \<open>
  C1, at two failing inputs. A caller whose credential is the session cookie, with a
  token of role \<open>user\<close>: the limiter reads \<open>req.cookies\<close> before the cookie parser has
  run, finds no token and counts the caller as anonymous, so of 101 requests at one time
  the 101st is rejected, with the anonymous message. And a caller with a Bearer token of
  role \<open>user\<close> on the URL path \<open>/api/api/health\<close>, which under the mount \<open>/api/\<close> is the
  path that the exemption compares equal: of 301 requests the 301st is forwarded too.
\<close>

theorem user_ceiling_missed:
  "getUserRoleFromToken sampleVerify
      (map_of (cookie_header (cookieRequest ''GET'' ''/api/hotels/search''
                                [(''session_id'', ''user-token'')])) ''session_id'')
     = ''user''
   \<and> bearerOrCookie (cookieParser (cookieRequest ''GET'' ''/api/hotels/search''
                                      [(''session_id'', ''user-token'')]))
     = Some ''user-token''
   \<and> bearerOrCookie (cookieRequest ''GET'' ''/api/hotels/search''
                        [(''session_id'', ''user-token'')])
     = None
   \<and> fst (run (admission sampleVerify)
       ((0, cookieRequest ''GET'' ''/api/hotels/search'' [(''session_id'', ''user-token'')])
        # replicate 100
            (0, cookieRequest ''GET'' ''/api/hotels/search'' [(''session_id'', ''user-token'')]))
       initialLimiters)
     = replicate 100 Next
       @ [Reply 429 ''Too many requests from this IP, please try again later. (Anonymous Rate Limit)'']
   \<and> getUserRoleFromToken sampleVerify
         (bearerOrCookie (plainRequest ''GET'' ''/api/api/health'' (Some ''Bearer user-token'')))
       = ''user''
   \<and> api_mount ''/api/api/health'' = Some ''/api/health''
   \<and> run (apiStage sampleVerify)
         (replicate 301 (0, plainRequest ''GET'' ''/api/api/health'' (Some ''Bearer user-token'')))
         initialLimiters
       = (replicate 301 Next, initialLimiters)"
proof -
  let ?c = "cookieRequest ''GET'' ''/api/hotels/search'' [(''session_id'', ''user-token'')]"
  let ?key = "Some ''203.0.113.7''"
  have sent: "getUserRoleFromToken sampleVerify (map_of (cookie_header ?c) ''session_id'') = ''user''"
    by (simp add: cookieRequest_def plainRequest_def getUserRoleFromToken_def sampleVerify_def
        or_string_def)
  have parsed: "bearerOrCookie (cookieParser ?c) = Some ''user-token''"
    by (simp add: cookieParser_def cookieRequest_def plainRequest_def bearerOrCookie_def)
  have unparsed: "bearerOrCookie ?c = None"
    by (simp add: cookieRequest_def plainRequest_def bearerOrCookie_def)
  have m: "api_mount ''/api/hotels/search'' = Some ''/hotels/search''"
    by (simp add: api_mount_def toLower_def)
  have c: "counted sampleVerify ''anonymous'' ?key ?c"
    by (simp add: counted_def unparsed getUserRoleFromToken_def)
       (simp add: cookieRequest_def plainRequest_def m)
  have f: "fresh (anonHits initialLimiters) ?key 0"
    by (simp add: fresh_def initialLimiters_def)
  have np: "\<forall>(t, req) \<in> set ((0::int, ?c) # replicate 100 (0, ?c)).
              \<not> payment_mount (originalUrl req)"
    by (simp add: cookieRequest_def plainRequest_def payment_mount_def toLower_def
        segment_here_def)
  have cookie: "fst (run (admission sampleVerify) ((0, ?c) # replicate 100 (0, ?c)) initialLimiters)
     = replicate 100 Next
       @ [Reply 429 ''Too many requests from this IP, please try again later. (Anonymous Rate Limit)'']"
    unfolding run_admission_off_payment_mount [OF np]
    by (rule anonymous_hundred_then_rejected [OF c f])
  let ?r = "plainRequest ''GET'' ''/api/api/health'' (Some ''Bearer user-token'')"
  have e: "api_mount ''/api/api/health'' = Some ''/api/health''"
    by (simp add: api_mount_def toLower_def)
  have step: "apiStage sampleVerify 0 ?r st = (Next, st)" for st
    by (simp add: apiStage_def plainRequest_def e roleBasedRateLimiter_def)
  have exempt: "run (apiStage sampleVerify) (replicate n (0, ?r)) st = (replicate n Next, st)" for n st
    by (induction n) (simp_all add: step)
  have role: "getUserRoleFromToken sampleVerify (bearerOrCookie ?r) = ''user''"
    by (simp add: getUserRoleFromToken_def bearerOrCookie_def plainRequest_def
        sampleVerify_def or_string_def)
  show ?thesis
    using sent parsed unparsed cookie role e exempt [of 301 initialLimiters]
    by (simp only: simp_thms)
qed

text \<open>
  C2, at the failing input. For the URL path \<open>/api/health\<close> the middleware mounted at
  \<open>/api/\<close> reads the path \<open>/health\<close>, which is none of the four exempt paths (nor is
  what it reads for the other three URL paths of the claim), so the request is counted: of
  101 requests for \<open>/api/health\<close> with no credential from one address at one time, the
  first 100 are forwarded and the 101st is rejected.
\<close>

theorem health_check_rate_limited:
  "api_mount ''/api/health'' = Some ''/health''
   \<and> api_mount ''/api/status'' = Some ''/status''
   \<and> api_mount ''/api/auth/validate-token'' = Some ''/auth/validate-token''
   \<and> api_mount ''/api/auth/google-callback'' = Some ''/auth/google-callback''
   \<and> fst (run (apiStage sampleVerify)
       ((0, plainRequest ''GET'' ''/api/health'' None)
        # replicate 100 (0, plainRequest ''GET'' ''/api/health'' None))
       initialLimiters)
       = replicate 100 Next
         @ [Reply 429 ''Too many requests from this IP, please try again later. (Anonymous Rate Limit)'']"
proof -
  let ?r = "plainRequest ''GET'' ''/api/health'' None"
  let ?key = "Some ''203.0.113.7''"
  have m: "api_mount ''/api/health'' = Some ''/health''"
    by (simp add: api_mount_def toLower_def)
  have c: "counted sampleVerify ''anonymous'' ?key ?r"
    by (simp add: counted_def getUserRoleFromToken_def bearerOrCookie_def plainRequest_def m)
  have h1: "\<forall>(t, req) \<in> set ((0::int, ?r) # replicate 100 (0, ?r)).
              counted sampleVerify ''anonymous'' ?key req \<and> t < 0 + 900000"
    using c by simp
  have h3: "fresh (hitsOf ''anonymous'' initialLimiters) ?key 0"
    by (simp add: fresh_def hitsOf_def initialLimiters_def)
  have "fst (run (apiStage sampleVerify) ((0, ?r) # replicate 100 (0, ?r)) initialLimiters)
      = map (\<lambda>i. if i < 100 then Next
                  else Reply 429
                    ''Too many requests from this IP, please try again later. (Anonymous Rate Limit)'')
            [0..<101]"
    using conjunct1 [OF run_apiStage_fresh [OF h1 _ h3]]
    by (simp add: limiterOf_def anonLimiter_def del: upt_Suc run.simps)
  also have "\<dots> = replicate 100 Next
         @ [Reply 429 ''Too many requests from this IP, please try again later. (Anonymous Rate Limit)'']"
    unfolding verdicts_replicate by simp
  finally show ?thesis
    by (simp add: api_mount_def toLower_def del: run.simps)
qed

lemma admission_admin:
  assumes "getUserRoleFromToken verify (bearerOrCookie req) = ''admin''"
  shows "admission verify now req st = (Next, st)"
proof -
  have tok: "bearerOrCookie (req\<lparr>req_path := p\<rparr>) = bearerOrCookie req" for p
    by (simp add: bearerOrCookie_def split: option.splits)
  have "roleBasedRateLimiter verify now (req\<lparr>req_path := p\<rparr>) st = (Next, st)" for p
    using assms by (simp add: roleBasedRateLimiter_def tok)
  then have api: "apiStage verify now req st = (Next, st)"
    by (simp add: apiStage_def split: option.splits)
  have "rateLimit (paymentLimiter verify) now req store = (Next, store)" for store
    using assms by (simp add: rateLimit_def paymentLimiter_def)
  then have "paymentStage verify now req st = (Next, st)"
    by (simp add: paymentStage_def)
  then show ?thesis by (simp add: admission_def api)
qed

text \<open>
  A request for which the limiters themselves find the role \<open>admin\<close>, from the token that
  they read, is forwarded by \<open>roleBasedRateLimiter\<close> and by \<open>paymentLimiter\<close>, whatever
  the stores hold, and neither counts it; so any number of such requests through both
  mounted limiters are all forwarded and leave the stores as they were.
\<close>

lemma admin_role_forwarded:
  assumes "\<forall>(t, req) \<in> set reqs. getUserRoleFromToken verify (bearerOrCookie req) = ''admin''"
  shows "run (admission verify) reqs st = (replicate (length reqs) Next, st)
       \<and> (\<forall>(t, req) \<in> set reqs.
            roleBasedRateLimiter verify t req st = (Next, st)
            \<and> rateLimit (paymentLimiter verify) t req store = (Next, store))"
proof -
  have "run (admission verify) reqs st = (replicate (length reqs) Next, st)"
    using assms
  proof (induction reqs)
    case Nil
    then show ?case by simp
  next
    case (Cons tr reqs)
    obtain t req where tr: "tr = (t, req)" by (cases tr)
    have "admission verify t req st = (Next, st)"
      using Cons.prems by (simp add: tr admission_admin)
    then show ?case using Cons by (simp add: tr)
  qed
  moreover have "\<forall>(t, req) \<in> set reqs.
            roleBasedRateLimiter verify t req st = (Next, st)
            \<and> rateLimit (paymentLimiter verify) t req store = (Next, store)"
    using assms by (auto simp: roleBasedRateLimiter_def rateLimit_def paymentLimiter_def)
  ultimately show ?thesis by simp
qed

text \<open>
  C5, at the failing input. An administrator whose credential is the session cookie: the
  token in the cookie resolves to \<open>admin\<close>, and after the cookie parser the limiter's own
  expression would read it; but both limiters run before the cookie parser, find no
  token and take the caller for anonymous. Of 101 requests at one time the 101st is
  rejected by the role-based limiter, and \<open>paymentLimiter\<close> does not skip such a request.
\<close>

theorem admin_cookie_rate_limited:
  "getUserRoleFromToken sampleVerify
      (map_of (cookie_header (cookieRequest ''GET'' ''/api/admin/users''
                                [(''session_id'', ''admin-token'')])) ''session_id'')
     = ''admin''
   \<and> getUserRoleFromToken sampleVerify
        (bearerOrCookie (cookieParser (cookieRequest ''GET'' ''/api/admin/users''
                                         [(''session_id'', ''admin-token'')])))
     = ''admin''
   \<and> getUserRoleFromToken sampleVerify
        (bearerOrCookie (cookieRequest ''GET'' ''/api/admin/users''
                           [(''session_id'', ''admin-token'')]))
     = ''anonymous''
   \<and> fst (run (admission sampleVerify)
       ((0, cookieRequest ''GET'' ''/api/admin/users'' [(''session_id'', ''admin-token'')])
        # replicate 100
            (0, cookieRequest ''GET'' ''/api/admin/users'' [(''session_id'', ''admin-token'')]))
       initialLimiters)
     = replicate 100 Next
       @ [Reply 429 ''Too many requests from this IP, please try again later. (Anonymous Rate Limit)'']
   \<and> skip (paymentLimiter sampleVerify)
        (cookieRequest ''POST'' ''/api/hotels/h1/bookings/payment-intent''
           [(''session_id'', ''admin-token'')])
     = False"
proof -
  let ?c = "cookieRequest ''GET'' ''/api/admin/users'' [(''session_id'', ''admin-token'')]"
  let ?key = "Some ''203.0.113.7''"
  have sent: "getUserRoleFromToken sampleVerify (map_of (cookie_header ?c) ''session_id'') = ''admin''"
    by (simp add: cookieRequest_def plainRequest_def getUserRoleFromToken_def sampleVerify_def
        or_string_def)
  have parsed: "getUserRoleFromToken sampleVerify (bearerOrCookie (cookieParser ?c)) = ''admin''"
    by (simp add: cookieParser_def cookieRequest_def plainRequest_def bearerOrCookie_def
        getUserRoleFromToken_def sampleVerify_def or_string_def)
  have unparsed: "getUserRoleFromToken sampleVerify (bearerOrCookie ?c) = ''anonymous''"
    by (simp add: cookieRequest_def plainRequest_def bearerOrCookie_def getUserRoleFromToken_def)
  have m: "api_mount ''/api/admin/users'' = Some ''/admin/users''"
    by (simp add: api_mount_def toLower_def)
  have c: "counted sampleVerify ''anonymous'' ?key ?c"
    by (simp add: counted_def unparsed) (simp add: cookieRequest_def plainRequest_def m)
  have f: "fresh (anonHits initialLimiters) ?key 0"
    by (simp add: fresh_def initialLimiters_def)
  have np: "\<forall>(t, req) \<in> set ((0::int, ?c) # replicate 100 (0, ?c)).
              \<not> payment_mount (originalUrl req)"
    by (simp add: cookieRequest_def plainRequest_def payment_mount_def toLower_def
        segment_here_def)
  have run: "fst (run (admission sampleVerify) ((0, ?c) # replicate 100 (0, ?c)) initialLimiters)
     = replicate 100 Next
       @ [Reply 429 ''Too many requests from this IP, please try again later. (Anonymous Rate Limit)'']"
    unfolding run_admission_off_payment_mount [OF np]
    by (rule anonymous_hundred_then_rejected [OF c f])
  have pay: "skip (paymentLimiter sampleVerify)
        (cookieRequest ''POST'' ''/api/hotels/h1/bookings/payment-intent''
           [(''session_id'', ''admin-token'')]) = False"
    by (simp add: paymentLimiter_def cookieRequest_def plainRequest_def bearerOrCookie_def
        getUserRoleFromToken_def)
  show ?thesis
    using sent parsed unparsed run pay by (simp only: simp_thms)
qed

lemma admission_anonymous:
  assumes "getUserRoleFromToken verify (bearerOrCookie req) = ''anonymous''"
  shows "admission verify now req st =
     (case (case api_mount (originalUrl req) of
              None \<Rightarrow> (Next, st)
            | Some p \<Rightarrow>
                if p \<in> set [''/api/health'', ''/api/status'', ''/api/auth/validate-token'',
                             ''/api/auth/google-callback'']
                then (Next, st)
                else (if totalHits (increment anonLimiter now (req_ip req) (anonHits st)) > 100
                      then Reply 429 (reply_message anonLimiter) else Next,
                      st\<lparr>anonHits := (anonHits st)
                            (req_ip req \<mapsto> increment anonLimiter now (req_ip req) (anonHits st))\<rparr>)) of
        (Next, st') \<Rightarrow>
          if payment_mount (originalUrl req)
          then (if totalHits (increment (paymentLimiter verify) now (req_ip req) (paymentHits st')) > 50
                then Reply 429 (reply_message (paymentLimiter verify)) else Next,
                st'\<lparr>paymentHits := (paymentHits st')
                      (req_ip req \<mapsto> increment (paymentLimiter verify) now (req_ip req) (paymentHits st'))\<rparr>)
          else (Next, st')
      | (Reply code msg, st') \<Rightarrow> (Reply code msg, st'))"
proof -
  have tok: "bearerOrCookie (req\<lparr>req_path := p\<rparr>) = bearerOrCookie req" for p
    by (simp add: bearerOrCookie_def split: option.splits)
  have a: "rateLimit anonLimiter now (req\<lparr>req_path := p\<rparr>) store =
      (if totalHits (increment anonLimiter now (req_ip req) store) > 100
       then Reply 429 (reply_message anonLimiter) else Next,
       store(req_ip req \<mapsto> increment anonLimiter now (req_ip req) store))" for p store
    by (simp add: rateLimit_def keyGenerator_def anonLimiter_def Let_def)
  have b: "rateLimit (paymentLimiter verify) now req store =
      (if totalHits (increment (paymentLimiter verify) now (req_ip req) store) > 50
       then Reply 429 (reply_message (paymentLimiter verify)) else Next,
       store(req_ip req \<mapsto> increment (paymentLimiter verify) now (req_ip req) store))" for store
    using assms by (simp add: rateLimit_def keyGenerator_def paymentLimiter_def Let_def)
  show ?thesis
    using assms
    by (simp add: admission_def apiStage_def paymentStage_def roleBasedRateLimiter_def tok a b
        split: option.splits)
qed

text \<open>
  C6. When the token of a request is missing or empty, or \<open>jwt.verify\<close> throws on it,
  \<open>getUserRoleFromToken\<close> returns \<open>anonymous\<close> (it has no other result for a failure),
  as it does for no token at all; the two mounted limiters then treat the request exactly
  as they treat the same request with its \<open>Authorization\<close> header and session cookie
  removed: the same outcome and the same stores; and when the role-based limiter counts
  the request, it is \<open>anonLimiter\<close>, with its ceiling of 100, that counts it.
\<close>

theorem failed_credential_is_anonymous:
  assumes "case bearerOrCookie req of
             None \<Rightarrow> True
           | Some t \<Rightarrow> t = [] \<or> verify (if prefix ''Bearer '' t then drop 7 t else t) = None"
  shows "getUserRoleFromToken verify (bearerOrCookie req) = ''anonymous''
       \<and> getUserRoleFromToken verify None = ''anonymous''
       \<and> admission verify now req st
           = admission verify now (req\<lparr>authorization := None, session_id := None\<rparr>) st
       \<and> (counted verify ''anonymous'' (req_ip req) req \<longrightarrow>
            apiStage verify now req st =
              (fst (rateLimit anonLimiter now req (anonHits st)),
               st\<lparr>anonHits := snd (rateLimit anonLimiter now req (anonHits st))\<rparr>))
       \<and> max_requests anonLimiter = 100
       \<and> windowMs anonLimiter = 15 * 60 * 1000"
proof -
  let ?bare = "req\<lparr>authorization := None, session_id := None\<rparr>"
  have role: "getUserRoleFromToken verify (bearerOrCookie req) = ''anonymous''"
    using assms by (auto simp: getUserRoleFromToken_def split: option.splits)
  have none: "getUserRoleFromToken verify None = ''anonymous''"
    by (simp add: getUserRoleFromToken_def)
  have bare: "getUserRoleFromToken verify (bearerOrCookie ?bare) = ''anonymous''"
    by (simp add: getUserRoleFromToken_def bearerOrCookie_def)
  have ip: "req_ip ?bare = req_ip req" and url: "originalUrl ?bare = originalUrl req"
    by simp_all
  have same: "admission verify now req st = admission verify now ?bare st"
    unfolding admission_anonymous [OF role] admission_anonymous [OF bare] ip url ..
  have "apiStage verify now req st =
          (fst (rateLimit anonLimiter now req (anonHits st)),
           st\<lparr>anonHits := snd (rateLimit anonLimiter now req (anonHits st))\<rparr>)"
    if c: "counted verify ''anonymous'' (req_ip req) req"
    using apiStage_counted [OF c, of now st]
    by (simp add: limiterOf_def hitsOf_def setHits_def rateLimit_counts anonLimiter_def)
  then show ?thesis
    using role none same by (simp add: anonLimiter_def)
qed

theorem failed_credential_is_anonymous_witness:
  "getUserRoleFromToken sampleVerify
      (bearerOrCookie (plainRequest ''GET'' ''/api/hotels/search'' (Some ''Bearer forged-token'')))
     = ''anonymous''
   \<and> admission sampleVerify 0
        (plainRequest ''GET'' ''/api/hotels/search'' (Some ''Bearer forged-token'')) initialLimiters
     = admission sampleVerify 0 (plainRequest ''GET'' ''/api/hotels/search'' None) initialLimiters"
proof -
  let ?r = "plainRequest ''GET'' ''/api/hotels/search'' (Some ''Bearer forged-token'')"
  have h: "case bearerOrCookie ?r of
             None \<Rightarrow> True
           | Some t \<Rightarrow> t = [] \<or> sampleVerify (if prefix ''Bearer '' t then drop 7 t else t) = None"
    by (simp add: bearerOrCookie_def plainRequest_def sampleVerify_def)
  have b: "?r\<lparr>authorization := None, session_id := None\<rparr>
             = plainRequest ''GET'' ''/api/hotels/search'' None"
    by (simp add: plainRequest_def)
  show ?thesis
    using failed_credential_is_anonymous [OF h, of 0 initialLimiters] by (simp add: b)
qed









end
